theory Spec2Isabelle
  imports Complex_Main "HOL-Library.Multiset"
begin

section \<open>Floating-point values\<close>

text \<open>
  The notebook computes with NumPy's \<^verbatim>\<open>float64\<close>. A value is a finite number, an
  infinity or \<^verbatim>\<open>nan\<close>: an undefined quotient is \<^verbatim>\<open>nan\<close>, not an exception, and the
  quantile function returns an infinity at the ends of its domain. The operations of this
  section are the exact ones on these values; the operations of \<^verbatim>\<open>float64\<close> round their
  results and are defined from them in the next section. The sign of zero is outside the
  model.
\<close>

datatype npfloat = Fin real | PInf | MInf | NaN

text \<open>The infinity with the sign of \<open>s\<close>; \<^verbatim>\<open>nan\<close> when \<open>s\<close> is zero.\<close>

definition inf_signed :: "real \<Rightarrow> npfloat" where
  "inf_signed s = (if s = 0 then NaN else if 0 < s then PInf else MInf)"

fun fsign :: "npfloat \<Rightarrow> real" where
  "fsign (Fin a) = sgn a"
| "fsign PInf = 1"
| "fsign MInf = - 1"
| "fsign NaN = 0"

fun fneg :: "npfloat \<Rightarrow> npfloat" where
  "fneg (Fin a) = Fin (- a)"
| "fneg PInf = MInf"
| "fneg MInf = PInf"
| "fneg NaN = NaN"

fun fadd :: "npfloat \<Rightarrow> npfloat \<Rightarrow> npfloat" where
  "fadd (Fin a) (Fin b) = Fin (a + b)"
| "fadd NaN y = NaN"
| "fadd x NaN = NaN"
| "fadd PInf MInf = NaN"
| "fadd MInf PInf = NaN"
| "fadd PInf y = PInf"
| "fadd x PInf = PInf"
| "fadd MInf y = MInf"
| "fadd x MInf = MInf"

definition fsub :: "npfloat \<Rightarrow> npfloat \<Rightarrow> npfloat" where
  "fsub x y = fadd x (fneg y)"

fun fmul :: "npfloat \<Rightarrow> npfloat \<Rightarrow> npfloat" where
  "fmul (Fin a) (Fin b) = Fin (a * b)"
| "fmul NaN y = NaN"
| "fmul x NaN = NaN"
| "fmul x y = inf_signed (fsign x * fsign y)"

text \<open>
  Division: a finite quotient where the divisor is a non-zero finite number; \<^verbatim>\<open>0/0\<close> and
  \<^verbatim>\<open>inf/inf\<close> are \<^verbatim>\<open>nan\<close>; a non-zero number over zero is an infinity (NumPy warns and
  goes on, it does not raise). The only zero divisors of the cell are counts, hence
  \<^verbatim>\<open>+0.0\<close>.
\<close>

fun fdiv :: "npfloat \<Rightarrow> npfloat \<Rightarrow> npfloat" where
  "fdiv (Fin a) (Fin b) = (if b = 0 then inf_signed a else Fin (a / b))"
| "fdiv NaN y = NaN"
| "fdiv x NaN = NaN"
| "fdiv (Fin a) y = Fin 0"
| "fdiv x (Fin b) = inf_signed (fsign x * (if b < 0 then - 1 else 1))"
| "fdiv x y = NaN"

fun fsqrt :: "npfloat \<Rightarrow> npfloat" where
  "fsqrt (Fin a) = (if a < 0 then NaN else Fin (sqrt a))"
| "fsqrt PInf = PInf"
| "fsqrt MInf = NaN"
| "fsqrt NaN = NaN"

text \<open>Comparisons: every comparison with \<^verbatim>\<open>nan\<close> is false.\<close>

fun fle :: "npfloat \<Rightarrow> npfloat \<Rightarrow> bool" where
  "fle (Fin a) (Fin b) = (a \<le> b)"
| "fle NaN y = False"
| "fle x NaN = False"
| "fle MInf y = True"
| "fle x PInf = True"
| "fle x y = False"


fun fsum :: "npfloat list \<Rightarrow> npfloat" where
  "fsum [] = Fin 0"
| "fsum (x # xs) = fadd x (fsum xs)"

section \<open>Rounding\<close>

text \<open>
  An operation of \<^verbatim>\<open>float64\<close> returns the exact result rounded to a representable value.
  The rounding \<open>rnd\<close> takes the exact finite result to the value stored, which is an
  infinity when the result overflows; it is a parameter of the model. An infinite or
  undefined exact result is stored as it is.
\<close>

definition rounded :: "(real \<Rightarrow> npfloat) \<Rightarrow> npfloat \<Rightarrow> npfloat" where
  "rounded rnd x = (case x of Fin a \<Rightarrow> rnd a | PInf \<Rightarrow> PInf | MInf \<Rightarrow> MInf | NaN \<Rightarrow> NaN)"

definition fadd_r :: "(real \<Rightarrow> npfloat) \<Rightarrow> npfloat \<Rightarrow> npfloat \<Rightarrow> npfloat" where
  "fadd_r rnd x y = rounded rnd (fadd x y)"

definition fsub_r :: "(real \<Rightarrow> npfloat) \<Rightarrow> npfloat \<Rightarrow> npfloat \<Rightarrow> npfloat" where
  "fsub_r rnd x y = rounded rnd (fsub x y)"

definition fmul_r :: "(real \<Rightarrow> npfloat) \<Rightarrow> npfloat \<Rightarrow> npfloat \<Rightarrow> npfloat" where
  "fmul_r rnd x y = rounded rnd (fmul x y)"

definition fdiv_r :: "(real \<Rightarrow> npfloat) \<Rightarrow> npfloat \<Rightarrow> npfloat \<Rightarrow> npfloat" where
  "fdiv_r rnd x y = rounded rnd (fdiv x y)"

definition fsqrt_r :: "(real \<Rightarrow> npfloat) \<Rightarrow> npfloat \<Rightarrow> npfloat" where
  "fsqrt_r rnd x = rounded rnd (fsqrt x)"

text \<open>
  What the general theorems use of a rounding: it is monotone, never \<^verbatim>\<open>nan\<close> (a value is
  below or equal to itself), and exact at 0, 1/2 and 1.
\<close>

definition rnd_contract :: "(real \<Rightarrow> npfloat) \<Rightarrow> bool" where
  "rnd_contract rnd \<longleftrightarrow>
     (\<forall>x y. x \<le> y \<longrightarrow> fle (rnd x) (rnd y)) \<and>
     rnd 0 = Fin 0 \<and> rnd (1 / 2) = Fin (1 / 2) \<and> rnd 1 = Fin 1"

text \<open>
  The rounding of IEEE 754 binary64, to nearest with ties to even: \<open>rne\<close> is the integer
  nearest to a real number, the even one of two nearest; the exponent of a number is that
  of the power of two at or below its magnitude, and at least \<open>-1022\<close> (below are the
  subnormal numbers); a number is rounded to a multiple of \<open>2\<close> to the power of its
  exponent minus 52 (a significand of 53 bits), and to an infinity when the multiple
  reaches \<open>2\<^sup>1\<^sup>0\<^sup>2\<^sup>4\<close>.
\<close>

definition rne :: "real \<Rightarrow> int" where
  "rne y = (let f = \<lfloor>y\<rfloor>; d = y - of_int f
            in if d < 1 / 2 then f else if 1 / 2 < d then f + 1
               else if even f then f else f + 1)"

definition pow2 :: "int \<Rightarrow> real" where
  "pow2 e = 2 powr of_int e"

definition expo :: "real \<Rightarrow> int" where
  "expo x = max \<lfloor>log 2 \<bar>x\<bar>\<rfloor> (- 1022)"

definition quant :: "real \<Rightarrow> real" where
  "quant x = of_int (rne (x / pow2 (expo x - 52))) * pow2 (expo x - 52)"

definition round_mag :: "real \<Rightarrow> npfloat" where
  "round_mag x = (if x = 0 then Fin 0 else if pow2 1024 \<le> quant x then PInf else Fin (quant x))"

definition round64 :: "real \<Rightarrow> npfloat" where
  "round64 x = (if x < 0 then fneg (round_mag (- x)) else round_mag x)"

section \<open>The library functions the cell calls\<close>

text \<open>
  \<^verbatim>\<open>ndarray.mean()\<close>: the sum of the elements over their number; the quotient is \<^verbatim>\<open>nan\<close>
  for the empty array. \<open>np_mean\<close> is the function in exact arithmetic, \<open>np_mean_f64\<close> the
  function in \<^verbatim>\<open>float64\<close>: NumPy adds the elements with \<^verbatim>\<open>add.reduce\<close>, converts the count
  to \<^verbatim>\<open>float64\<close> and divides. A sample is an array of finite numbers.
\<close>

definition np_mean :: "real list \<Rightarrow> npfloat" where
  "np_mean a = fdiv (Fin (sum_list a)) (Fin (real (length a)))"

definition np_mean_f64 ::
    "(real \<Rightarrow> npfloat) \<Rightarrow> (npfloat list \<Rightarrow> npfloat) \<Rightarrow> real list \<Rightarrow> npfloat" where
  "np_mean_f64 rnd add_reduce a =
     fdiv_r rnd (add_reduce (map Fin a)) (rnd (real (length a)))"

text \<open>
  \<^verbatim>\<open>ndarray.std(ddof)\<close>, as NumPy computes it: the mean of the array, the deviations from
  it, their squares, the sum of the squares over \<^verbatim>\<open>max(n - ddof, 0)\<close>, and the square root;
  in exact arithmetic and in \<^verbatim>\<open>float64\<close>.
\<close>

definition np_std :: "real list \<Rightarrow> nat \<Rightarrow> npfloat" where
  "np_std a ddof =
     (let rcount = length a;
          arrmean = fdiv (Fin (sum_list a)) (Fin (real rcount));
          x = map (\<lambda>v. fsub (Fin v) arrmean) a;
          x2 = map (\<lambda>d. fmul d d) x;
          ret = fsum x2;
          rcount' = max (int rcount - int ddof) 0
      in fsqrt (fdiv ret (Fin (real_of_int rcount'))))"

definition np_std_f64 ::
    "(real \<Rightarrow> npfloat) \<Rightarrow> (npfloat list \<Rightarrow> npfloat) \<Rightarrow> real list \<Rightarrow> nat \<Rightarrow> npfloat" where
  "np_std_f64 rnd add_reduce a ddof =
     (let rcount = length a;
          arrmean = fdiv_r rnd (add_reduce (map Fin a)) (rnd (real rcount));
          x = map (\<lambda>v. fsub_r rnd (Fin v) arrmean) a;
          x2 = map (\<lambda>d. fmul_r rnd d d) x;
          ret = add_reduce x2;
          rcount' = max (int rcount - int ddof) 0
      in fsqrt_r rnd (fdiv_r rnd ret (rnd (real_of_int rcount'))))"

text \<open>
  \<^verbatim>\<open>add.reduce\<close> is a parameter \<open>add_reduce\<close> of the \<^verbatim>\<open>float64\<close> functions: NumPy adds an
  array of fewer than eight values one element after the other, and a longer array in
  blocks. \<open>seq_sum\<close> adds one element after the other, each sum rounded.
\<close>

definition seq_sum :: "(real \<Rightarrow> npfloat) \<Rightarrow> npfloat list \<Rightarrow> npfloat" where
  "seq_sum rnd xs = foldl (fadd_r rnd) (Fin 0) xs"

text \<open>
  Modelled from the spec: \<^verbatim>\<open>scipy.stats.norm.ppf\<close>, the quantile function of the standard
  normal distribution, is a library function outside the repository and a parameter
  \<open>ppf\<close> of the model, a function of the finite probability it is given; on an infinity
  and on \<^verbatim>\<open>nan\<close> it returns \<^verbatim>\<open>nan\<close>. Its contract is that for a probability \<open>p\<close> in \<open>(0,1)\<close>
  it returns the real number \<open>z\<close> with \<open>P(Z \<le> z) = p\<close>. Of that contract the development
  uses that the value is finite on \<open>(0,1)\<close>, negative below \<open>1/2\<close>, zero at \<open>1/2\<close> and
  positive above (the standard normal distribution is symmetric about zero), and of the
  library that it returns \<^verbatim>\<open>-inf\<close> at 0, \<^verbatim>\<open>inf\<close> at 1 and \<^verbatim>\<open>nan\<close> outside \<open>[0,1]\<close>.
\<close>

definition norm_ppf_at :: "(real \<Rightarrow> npfloat) \<Rightarrow> npfloat \<Rightarrow> npfloat" where
  "norm_ppf_at ppf x = (case x of Fin p \<Rightarrow> ppf p | PInf \<Rightarrow> NaN | MInf \<Rightarrow> NaN | NaN \<Rightarrow> NaN)"

definition norm_ppf_contract :: "(real \<Rightarrow> npfloat) \<Rightarrow> bool" where
  "norm_ppf_contract ppf \<longleftrightarrow>
     ppf 0 = MInf \<and> ppf (1 / 2) = Fin 0 \<and> ppf 1 = PInf \<and>
     (\<forall>p. 0 < p \<and> p < 1 / 2 \<longrightarrow> (\<exists>z. ppf p = Fin z \<and> z < 0)) \<and>
     (\<forall>p. 1 / 2 < p \<and> p < 1 \<longrightarrow> (\<exists>z. ppf p = Fin z \<and> 0 < z)) \<and>
     (\<forall>p. p < 0 \<or> 1 < p \<longrightarrow> ppf p = NaN)"

section \<open>The interval estimator\<close>

text \<open>
  \<^verbatim>\<open>
  def calculate_confidence_interval_of_sample_mean(sample, alpha):
      N = len(sample)
      sample_mean = sample.mean()
      sample_std = sample.std(ddof=1) # one degree of freedom
      z_value = stats.norm.ppf(1-alpha/2)
      ci_lb = sample_mean - z_value * sample_std/np.sqrt(N)
      ci_ub = sample_mean + z_value * sample_std/np.sqrt(N)
      return ci_lb, ci_ub
  \<close>
  The function has no check of its arguments and no \<^verbatim>\<open>raise\<close>.

  \<open>calculate_confidence_interval_of_sample_mean\<close> is the function in exact arithmetic. It
  has the control flow of the code (the \<^verbatim>\<open>nan\<close> and infinity cases, the absence of any
  error) and its values up to rounding, and is the estimator of the coverage loop below.
  \<open>calculate_confidence_interval_of_sample_mean_f64\<close> is the function in \<^verbatim>\<open>float64\<close>, each
  operation rounded: the quotient \<^verbatim>\<open>alpha/2\<close> and the difference \<^verbatim>\<open>1-alpha/2\<close>, the product
  \<^verbatim>\<open>z_value * sample_std\<close>, the conversion of \<^verbatim>\<open>N\<close> and its square root, the quotient and the
  two bounds. The properties that depend on rounding are stated of it.
\<close>

definition calculate_confidence_interval_of_sample_mean ::
    "(real \<Rightarrow> npfloat) \<Rightarrow> real list \<Rightarrow> real \<Rightarrow> npfloat \<times> npfloat" where
  "calculate_confidence_interval_of_sample_mean ppf sample alpha =
     (let N = length sample;
          sample_mean = np_mean sample;
          sample_std = np_std sample 1;
          z_value = ppf (1 - alpha / 2);
          ci_lb = fsub sample_mean (fdiv (fmul z_value sample_std) (fsqrt (Fin (real N))));
          ci_ub = fadd sample_mean (fdiv (fmul z_value sample_std) (fsqrt (Fin (real N))))
      in (ci_lb, ci_ub))"

definition calculate_confidence_interval_of_sample_mean_f64 ::
    "(real \<Rightarrow> npfloat) \<Rightarrow> (npfloat list \<Rightarrow> npfloat) \<Rightarrow> (real \<Rightarrow> npfloat) \<Rightarrow> real list \<Rightarrow> real
      \<Rightarrow> npfloat \<times> npfloat" where
  "calculate_confidence_interval_of_sample_mean_f64 rnd add_reduce ppf sample alpha =
     (let N = length sample;
          sample_mean = np_mean_f64 rnd add_reduce sample;
          sample_std = np_std_f64 rnd add_reduce sample 1;
          z_value = norm_ppf_at ppf (fsub_r rnd (Fin 1) (fdiv_r rnd (Fin alpha) (Fin 2)));
          ci_lb = fsub_r rnd sample_mean
                    (fdiv_r rnd (fmul_r rnd z_value sample_std) (fsqrt_r rnd (rnd (real N))));
          ci_ub = fadd_r rnd sample_mean
                    (fdiv_r rnd (fmul_r rnd z_value sample_std) (fsqrt_r rnd (rnd (real N))))
      in (ci_lb, ci_ub))"

section \<open>The coverage loop\<close>

text \<open>
  \<^verbatim>\<open>
  mu = 1000
  sigma = 50
  N = 50

  ci_contains_population_mean = []

  for _ in range(100_000):
      # Draw random sample from population
      sample = np.random.normal(mu, sigma, N)
      # Calculate confidence interval
      ci_lb, ci_ub = calculate_confidence_interval_of_sample_mean(sample, 0.05)
      # Check if confidence interval contains population mean
      ci_contains_population_mean.append(ci_lb <= mu <= ci_ub)

  print(np.mean(ci_contains_population_mean))
  \<close>
  (An earlier copy of the notebook runs the same cell with \<^verbatim>\<open>range(1_000_000)\<close>.)
  The constants of the cell (\<^verbatim>\<open>mu\<close>, \<^verbatim>\<open>sigma\<close>, \<^verbatim>\<open>N\<close>, the significance level and the
  number of iterations) are parameters of the model. \<^verbatim>\<open>np.random.normal\<close> reads and
  advances the state of NumPy's global generator: it is a parameter \<open>normal\<close> that takes
  the generator's state \<open>g\<close> and returns the sample with the next state, or the
  \<^verbatim>\<open>ValueError\<close> that NumPy raises on parameters it refuses (a negative scale). An
  exception leaves the loop and the cell, and nothing is printed.
\<close>

datatype error = ValueError

type_synonym 'g sampler = "real \<Rightarrow> real \<Rightarrow> nat \<Rightarrow> 'g \<Rightarrow> error + (real list \<times> 'g)"

text \<open>The body of the loop up to the interval: one trial.\<close>

definition run_trial ::
    "'g sampler \<Rightarrow> (real \<Rightarrow> npfloat) \<Rightarrow> real \<Rightarrow> real \<Rightarrow> nat \<Rightarrow> real \<Rightarrow> 'g
      \<Rightarrow> error + ((npfloat \<times> npfloat) \<times> 'g)" where
  "run_trial normal ppf mu sigma N alpha g =
     (case normal mu sigma N g of
        Inl e \<Rightarrow> Inl e
      | Inr (sample, g') \<Rightarrow>
          Inr (calculate_confidence_interval_of_sample_mean ppf sample alpha, g'))"

text \<open>\<^verbatim>\<open>ci_lb <= mu <= ci_ub\<close>: Python's chained comparison, both ends inclusive.\<close>

fun ci_contains :: "npfloat \<times> npfloat \<Rightarrow> real \<Rightarrow> bool" where
  "ci_contains (ci_lb, ci_ub) mu \<longleftrightarrow> fle ci_lb (Fin mu) \<and> fle (Fin mu) ci_ub"

text \<open>
  The \<^verbatim>\<open>for\<close> loop with \<open>k\<close> iterations left; \<open>acc\<close> is the list
  \<^verbatim>\<open>ci_contains_population_mean\<close>.
\<close>

fun coverage_loop ::
    "'g sampler \<Rightarrow> (real \<Rightarrow> npfloat) \<Rightarrow> real \<Rightarrow> real \<Rightarrow> nat \<Rightarrow> real \<Rightarrow> nat \<Rightarrow> bool list \<Rightarrow> 'g
      \<Rightarrow> error + (bool list \<times> 'g)" where
  "coverage_loop normal ppf mu sigma N alpha 0 acc g = Inr (acc, g)"
| "coverage_loop normal ppf mu sigma N alpha (Suc k) acc g =
     (case run_trial normal ppf mu sigma N alpha g of
        Inl e \<Rightarrow> Inl e
      | Inr (ci, g') \<Rightarrow>
          coverage_loop normal ppf mu sigma N alpha k (acc @ [ci_contains ci mu]) g')"

text \<open>
  \<^verbatim>\<open>np.mean\<close> of a list of booleans: the number of \<^verbatim>\<open>True\<close> entries over the length, in
  \<^verbatim>\<open>float64\<close>; \<^verbatim>\<open>nan\<close> for the empty list.
\<close>

definition np_mean_bool :: "bool list \<Rightarrow> npfloat" where
  "np_mean_bool bs = fdiv (Fin (real (length (filter id bs)))) (Fin (real (length bs)))"

text \<open>The cell: the loop from the empty list, then the mean that is printed.\<close>

definition estimate_coverage ::
    "'g sampler \<Rightarrow> (real \<Rightarrow> npfloat) \<Rightarrow> real \<Rightarrow> real \<Rightarrow> nat \<Rightarrow> real \<Rightarrow> nat \<Rightarrow> 'g
      \<Rightarrow> error + (npfloat \<times> 'g)" where
  "estimate_coverage normal ppf mu sigma N alpha num_trials g =
     (case coverage_loop normal ppf mu sigma N alpha num_trials [] g of
        Inl e \<Rightarrow> Inl e
      | Inr (bs, g') \<Rightarrow> Inr (np_mean_bool bs, g'))"

text \<open>The cell with the constants of the notebook.\<close>

definition notebook_cell :: "'g sampler \<Rightarrow> (real \<Rightarrow> npfloat) \<Rightarrow> 'g \<Rightarrow> error + (npfloat \<times> 'g)" where
  "notebook_cell normal ppf g = estimate_coverage normal ppf 1000 50 50 (5 / 100) 100000 g"

section \<open>The specification's formulas\<close>

text \<open>
  The arithmetic mean, the sum of squared deviations from it and the Bessel-corrected
  standard deviation of a sample, as real numbers.
\<close>

definition arithmetic_mean :: "real list \<Rightarrow> real" where
  "arithmetic_mean xs = sum_list xs / real (length xs)"

definition sum_sq_dev :: "real list \<Rightarrow> real" where
  "sum_sq_dev xs = (\<Sum>x\<leftarrow>xs. (x - arithmetic_mean xs)\<^sup>2)"

definition bessel_std :: "real list \<Rightarrow> real" where
  "bessel_std xs = sqrt (sum_sq_dev xs / (real (length xs) - 1))"

text \<open>
  The standard deviation as the specification words it: the square root of the sum of
  squared deviations divided by \<open>N - 1\<close>. The quotient is undefined for a sample of one
  value, which the arithmetic of the code reports as \<^verbatim>\<open>nan\<close>.
\<close>

definition sample_std_spec :: "real list \<Rightarrow> npfloat" where
  "sample_std_spec xs = fsqrt (fdiv (Fin (sum_sq_dev xs)) (Fin (real (length xs) - 1)))"


text \<open>
  No operation of the estimator rounds: at the sample \<open>xs\<close>, the significance level
  \<open>alpha\<close> and the quantile \<open>z\<close>, the two sums and every intermediate result of the
  computation are stored exactly.
\<close>

definition no_rounding ::
    "(real \<Rightarrow> npfloat) \<Rightarrow> (npfloat list \<Rightarrow> npfloat) \<Rightarrow> real list \<Rightarrow> real \<Rightarrow> real \<Rightarrow> bool" where
  "no_rounding rnd add_reduce xs alpha z \<longleftrightarrow>
     (let N = real (length xs); m = arithmetic_mean xs; s = bessel_std xs;
          t = z * s / sqrt N
      in add_reduce (map Fin xs) = Fin (sum_list xs) \<and>
         rnd N = Fin N \<and> rnd m = Fin m \<and>
         (\<forall>x \<in> set xs. rnd (x - m) = Fin (x - m) \<and>
                        rnd ((x - m) * (x - m)) = Fin ((x - m) * (x - m))) \<and>
         add_reduce (map (\<lambda>x. Fin ((x - m) * (x - m))) xs) = Fin (sum_sq_dev xs) \<and>
         rnd (N - 1) = Fin (N - 1) \<and>
         rnd (sum_sq_dev xs / (N - 1)) = Fin (sum_sq_dev xs / (N - 1)) \<and>
         rnd s = Fin s \<and>
         rnd (alpha / 2) = Fin (alpha / 2) \<and> rnd (1 - alpha / 2) = Fin (1 - alpha / 2) \<and>
         rnd (z * s) = Fin (z * s) \<and> rnd (sqrt N) = Fin (sqrt N) \<and> rnd t = Fin t \<and>
         rnd (m - t) = Fin (m - t) \<and> rnd (m + t) = Fin (m + t))"

text \<open>
  The samples that \<open>k\<close> successive draws produce from the generator state \<open>g\<close>, with the
  state they leave; the first failing draw fails the whole.
\<close>

fun draw_samples :: "'g sampler \<Rightarrow> real \<Rightarrow> real \<Rightarrow> nat \<Rightarrow> nat \<Rightarrow> 'g \<Rightarrow> error + (real list list \<times> 'g)" where
  "draw_samples normal mu sigma N 0 g = Inr ([], g)"
| "draw_samples normal mu sigma N (Suc k) g =
     (case normal mu sigma N g of
        Inl e \<Rightarrow> Inl e
      | Inr (sample, g') \<Rightarrow>
          (case draw_samples normal mu sigma N k g' of
             Inl e \<Rightarrow> Inl e
           | Inr (samples, g'') \<Rightarrow> Inr (sample # samples, g'')))"

section \<open>Stand-ins for the library functions\<close>

text \<open>
  Concrete functions at which the theorems below are instantiated. \<open>stub_ppf\<close> is the
  quantile function of the uniform distribution on \<open>(-1/2, 1/2)\<close>; it satisfies
  \<open>norm_ppf_contract\<close>: like \<^verbatim>\<open>scipy.stats.norm.ppf\<close> it returns the infinities at 0
  and 1 and \<^verbatim>\<open>nan\<close> outside \<open>[0,1]\<close>. \<open>stub_normal\<close> is a sampler whose generator state is a counter:
  draw number \<open>g\<close> is the sample of \<open>n\<close> copies of \<open>mu + g * sigma\<close>; like NumPy it
  refuses a negative scale.
\<close>

definition stub_ppf :: "real \<Rightarrow> npfloat" where
  "stub_ppf p =
     (if p < 0 \<or> 1 < p then NaN
      else if p = 0 then MInf
      else if p = 1 then PInf
      else Fin (p - 1 / 2))"

definition stub_normal :: "nat sampler" where
  "stub_normal mu sigma n g =
     (if sigma < 0 then Inl ValueError else Inr (replicate n (mu + real g * sigma), Suc g))"

section \<open>Facts about the library functions\<close>

lemma fsum_squares:
  "fsum (map (\<lambda>d. fmul d d) (map (\<lambda>v. fsub (Fin v) (Fin m)) a)) = Fin (\<Sum>v\<leftarrow>a. (v - m)\<^sup>2)"
  by (induction a) (simp_all add: fsub_def power2_eq_square)

lemma np_mean_nonempty: "a \<noteq> [] \<Longrightarrow> np_mean a = Fin (arithmetic_mean a)"
  by (simp add: np_mean_def arithmetic_mean_def)

lemma np_mean_empty: "np_mean [] = NaN"
  by (simp add: np_mean_def inf_signed_def)

lemma sum_sq_dev_nonneg: "0 \<le> sum_sq_dev xs"
  unfolding sum_sq_dev_def by (rule sum_list_nonneg) auto

lemma bessel_std_nonneg: "2 \<le> length xs \<Longrightarrow> 0 \<le> bessel_std xs"
  unfolding bessel_std_def using sum_sq_dev_nonneg[of xs] by simp

lemma np_std_nonempty:
  assumes "a \<noteq> []"
  shows "np_std a 1 = sample_std_spec a"
proof -
  have ne: "real (length a) \<noteq> 0" using assms by simp
  have m: "fdiv (Fin (sum_list a)) (Fin (real (length a))) = Fin (arithmetic_mean a)"
    using ne by (simp add: arithmetic_mean_def)
  have "1 \<le> length a" using assms by (cases a) simp_all
  then have r: "real_of_int (max (int (length a) - int 1) 0) = real (length a) - 1"
    by simp
  show ?thesis
    unfolding np_std_def Let_def m fsum_squares r sample_std_spec_def sum_sq_dev_def ..
qed

lemma sample_std_spec_ge2:
  assumes "2 \<le> length a"
  shows "sample_std_spec a = Fin (bessel_std a)"
proof -
  have nz: "real (length a) - 1 \<noteq> 0" using assms by auto
  have pos: "0 \<le> sum_sq_dev a / (real (length a) - 1)"
    using sum_sq_dev_nonneg[of a] assms by simp
  show ?thesis
    unfolding sample_std_spec_def bessel_std_def using nz pos by simp
qed

lemma np_std_ge2: "2 \<le> length a \<Longrightarrow> np_std a 1 = Fin (bessel_std a)"
  using np_std_nonempty[of a] sample_std_spec_ge2[of a] by (cases a) simp_all

lemma np_std_lt2: "length a < 2 \<Longrightarrow> np_std a 1 = NaN"
proof -
  assume "length a < 2"
  then consider "a = []" | x where "a = [x]"
    by (cases a) (auto simp: length_Suc_conv)
  then show ?thesis
    by cases (simp_all add: np_std_def Let_def fsub_def inf_signed_def)
qed

lemma calculate_closed_form:
  assumes "2 \<le> length sample" and "ppf (1 - alpha / 2) = Fin z"
  shows "calculate_confidence_interval_of_sample_mean ppf sample alpha =
         (Fin (arithmetic_mean sample - z * bessel_std sample / sqrt (real (length sample))),
          Fin (arithmetic_mean sample + z * bessel_std sample / sqrt (real (length sample))))"
proof -
  have ne: "sample \<noteq> []" using assms(1) by (cases sample) simp_all
  have nz: "sqrt (real (length sample)) \<noteq> 0" using ne by simp
  show ?thesis
    unfolding calculate_confidence_interval_of_sample_mean_def Let_def
      np_mean_nonempty[OF ne] np_std_ge2[OF assms(1)] assms(2)
    using nz by (simp add: fsub_def)
qed

lemma calculate_lt2:
  assumes "length sample < 2"
  shows "calculate_confidence_interval_of_sample_mean ppf sample alpha = (NaN, NaN)"
proof -
  have "fmul z NaN = NaN" for z by (cases z) simp_all
  moreover have "fdiv NaN y = NaN" for y by simp
  moreover have "fadd x NaN = NaN" for x by (cases x) simp_all
  ultimately show ?thesis
    unfolding calculate_confidence_interval_of_sample_mean_def Let_def
      np_std_lt2[OF assms] by (simp add: fsub_def)
qed

section \<open>Facts about the loop\<close>

lemma coverage_loop_draws:
  "coverage_loop normal ppf mu sigma N alpha k acc g =
     (case draw_samples normal mu sigma N k g of
        Inl e \<Rightarrow> Inl e
      | Inr (samples, g') \<Rightarrow>
          Inr (acc @ map (\<lambda>s. ci_contains
                 (calculate_confidence_interval_of_sample_mean ppf s alpha) mu) samples, g'))"
proof (induction k arbitrary: acc g)
  case 0
  show ?case by simp
next
  case (Suc k)
  show ?case
  proof (cases "normal mu sigma N g")
    case (Inl e)
    then show ?thesis by (simp add: run_trial_def)
  next
    case (Inr r)
    obtain sample g1 where r: "r = (sample, g1)" by (cases r)
    show ?thesis
      using Inr r Suc.IH[of "acc @ [ci_contains
          (calculate_confidence_interval_of_sample_mean ppf sample alpha) mu]" g1]
      by (simp add: run_trial_def split: sum.splits prod.splits)
  qed
qed


lemma estimate_coverage_draws:
  "estimate_coverage normal ppf mu sigma N alpha k g =
     (case draw_samples normal mu sigma N k g of
        Inl e \<Rightarrow> Inl e
      | Inr (samples, g') \<Rightarrow>
          Inr (np_mean_bool (map (\<lambda>s. ci_contains
                 (calculate_confidence_interval_of_sample_mean ppf s alpha) mu) samples), g'))"
  unfolding estimate_coverage_def coverage_loop_draws
  by (simp split: sum.splits prod.splits)



section \<open>Facts about errors\<close>

lemma run_trial_Inl_iff:
  "run_trial normal ppf mu sigma N alpha g = Inl e \<longleftrightarrow> normal mu sigma N g = Inl e"
  by (simp add: run_trial_def split: sum.splits prod.splits)

lemma estimate_coverage_Inl_iff:
  "estimate_coverage normal ppf mu sigma N alpha k g = Inl e \<longleftrightarrow>
   draw_samples normal mu sigma N k g = Inl e"
  unfolding estimate_coverage_draws by (simp split: sum.splits prod.splits)

section \<open>Runs of the stand-ins\<close>



section \<open>The sample 998, 1002, 997, 1005, 999\<close>

lemma scenario_mean: "arithmetic_mean [998, 1002, 997, 1005, 999] = 5001 / 5"
  by (simp add: arithmetic_mean_def)

lemma scenario_sum_sq_dev: "sum_sq_dev [998, 1002, 997, 1005, 999] = 214 / 5"
  by (simp add: sum_sq_dev_def scenario_mean power2_eq_square)

lemma scenario_std: "bessel_std [998, 1002, 997, 1005, 999] = sqrt (107 / 10)"
  by (simp add: bessel_std_def scenario_sum_sq_dev)

lemma scenario_np_std: "np_std [998, 1002, 997, 1005, 999] 1 = Fin (sqrt (107 / 10))"
  using np_std_ge2[of "[998, 1002, 997, 1005, 999]"] by (simp add: scenario_std)

lemma sqrt_107_10_bounds: "3270 / 1000 < sqrt (107 / 10)" "sqrt (107 / 10) < 3272 / 1000"
proof -
  show "3270 / 1000 < sqrt (107 / 10)"
    by (rule real_less_rsqrt) (simp add: power2_eq_square)
  show "sqrt (107 / 10) < 3272 / 1000"
    by (rule real_less_lsqrt) (simp_all add: power2_eq_square)
qed

lemma sqrt_107_50_bounds: "14628 / 10000 < sqrt (107 / 50)" "sqrt (107 / 50) < 14629 / 10000"
proof -
  show "14628 / 10000 < sqrt (107 / 50)"
    by (rule real_less_rsqrt) (simp add: power2_eq_square)
  show "sqrt (107 / 50) < 14629 / 10000"
    by (rule real_less_lsqrt) (simp_all add: power2_eq_square)
qed

lemma scenario_interval:
  assumes "ppf (39 / 40) = Fin z"
  shows "calculate_confidence_interval_of_sample_mean ppf [998, 1002, 997, 1005, 999] (1 / 20) =
         (Fin (5001 / 5 - z * sqrt (107 / 50)), Fin (5001 / 5 + z * sqrt (107 / 50)))"
proof -
  have q: "sqrt (107 / 10) / sqrt 5 = sqrt (107 / 50)"
    by (simp add: real_sqrt_divide[symmetric])
  have z: "ppf (1 - (1 / 20) / 2) = Fin z" using assms by simp
  have "z * sqrt (107 / 10) / sqrt 5 = z * sqrt (107 / 50)"
    using q by (simp only: times_divide_eq_right[symmetric])
  then show ?thesis
    using calculate_closed_form[of "[998, 1002, 997, 1005, 999]" ppf "1 / 20" z, OF _ z]
    by (simp add: scenario_mean scenario_std)
qed

lemma scenario_margin_bounds:
  assumes "\<bar>z - 195996 / 100000\<bar> \<le> 1 / 100000"
  shows "2866 / 1000 < z * sqrt (107 / 50)" and "z * sqrt (107 / 50) < 2868 / 1000"
proof -
  have zl: "195995 / 100000 \<le> z" and zu: "z \<le> 195997 / 100000"
    using assms by linarith+
  have "2866 / 1000 < (195995 / 100000) * (14628 / 10000 :: real)" by simp
  also have "\<dots> < (195995 / 100000) * sqrt (107 / 50)"
    using sqrt_107_50_bounds(1) by (intro mult_strict_left_mono) simp_all
  also have "\<dots> \<le> z * sqrt (107 / 50)"
    using zl by (intro mult_right_mono) simp_all
  finally show "2866 / 1000 < z * sqrt (107 / 50)" .
  have "z * sqrt (107 / 50) \<le> (195997 / 100000) * sqrt (107 / 50)"
    using zu by (intro mult_right_mono) simp_all
  also have "\<dots> < (195997 / 100000) * (14629 / 10000 :: real)"
    using sqrt_107_50_bounds(2) by (intro mult_strict_left_mono) simp_all
  also have "\<dots> < 2868 / 1000" by simp
  finally show "z * sqrt (107 / 50) < 2868 / 1000" .
qed

lemma scenario_margin_arith:
  fixes m :: real
  assumes "2866 / 1000 < m" and "m < 2868 / 1000"
  shows "\<bar>((5001 / 5 + m) - (5001 / 5 - m)) / 2 - 2867 / 1000\<bar> < 1 / 1000"
    and "\<bar>(5001 / 5 - m) - 997333 / 1000\<bar> < 1 / 1000"
    and "\<bar>(5001 / 5 + m) - 1003067 / 1000\<bar> < 1 / 1000"
    and "\<not> \<bar>(5001 / 5 - m) - 99740 / 100\<bar> \<le> 5 / 100"
    and "\<not> \<bar>(5001 / 5 + m) - 1002997 / 1000\<bar> \<le> 5 / 100"
    and "\<not> \<bar>((5001 / 5 + m) - (5001 / 5 - m)) / 2 - 2797 / 1000\<bar> \<le> 5 / 100"
proof -
  have h: "((5001 / 5 + m) - (5001 / 5 - m)) / 2 = m" by simp
  show "\<bar>((5001 / 5 + m) - (5001 / 5 - m)) / 2 - 2867 / 1000\<bar> < 1 / 1000"
    unfolding h using assms by linarith
  show "\<not> \<bar>((5001 / 5 + m) - (5001 / 5 - m)) / 2 - 2797 / 1000\<bar> \<le> 5 / 100"
    unfolding h using assms by linarith
  show "\<bar>(5001 / 5 - m) - 997333 / 1000\<bar> < 1 / 1000"
    using assms by linarith
  show "\<bar>(5001 / 5 + m) - 1003067 / 1000\<bar> < 1 / 1000"
    using assms by linarith
  show "\<not> \<bar>(5001 / 5 - m) - 99740 / 100\<bar> \<le> 5 / 100"
    using assms by linarith
  show "\<not> \<bar>(5001 / 5 + m) - 1002997 / 1000\<bar> \<le> 5 / 100"
    using assms by linarith
qed

section \<open>Facts about rounding to nearest\<close>

lemma pow2_pos [simp]: "0 < pow2 e"
  by (simp add: pow2_def)

lemma pow2_nonneg [simp]: "0 \<le> pow2 e"
  by (simp add: pow2_def)

lemma pow2_nz [simp]: "pow2 e \<noteq> 0"
  by (simp add: pow2_def)

lemma pow2_add: "pow2 (a + b) = pow2 a * pow2 b"
  by (simp add: pow2_def powr_add)

lemma pow2_diff: "pow2 (a - b) = pow2 a / pow2 b"
  by (simp add: pow2_def powr_diff)

lemma pow2_mono: "a \<le> b \<Longrightarrow> pow2 a \<le> pow2 b"
  by (simp add: pow2_def)

lemma pow2_less: "a < b \<Longrightarrow> pow2 a < pow2 b"
  by (simp add: pow2_def)

lemma pow2_eval: "pow2 e = (if 0 \<le> e then 2 ^ nat e else inverse (2 ^ nat (- e)))"
  unfolding pow2_def by (rule powr_real_of_int) simp

lemma rne_of_int [simp]: "rne (of_int k) = k"
  by (simp add: rne_def)

lemma rne_mono: "a \<le> b \<Longrightarrow> rne a \<le> rne b"
proof -
  assume ab: "a \<le> b"
  then have f: "\<lfloor>a\<rfloor> \<le> \<lfloor>b\<rfloor>" by (rule floor_mono)
  have la: "rne a \<le> \<lfloor>a\<rfloor> + 1" and lb: "\<lfloor>b\<rfloor> \<le> rne b"
    by (simp_all add: rne_def Let_def)
  show ?thesis
  proof (cases "\<lfloor>a\<rfloor> < \<lfloor>b\<rfloor>")
    case True
    then show ?thesis using la lb by linarith
  next
    case False
    then have eq: "\<lfloor>a\<rfloor> = \<lfloor>b\<rfloor>" using f by simp
    then have "a - of_int \<lfloor>a\<rfloor> \<le> b - of_int \<lfloor>b\<rfloor>" using ab by simp
    then show ?thesis
      unfolding rne_def Let_def eq by (auto split: if_splits)
  qed
qed

lemma rne_nonneg: "0 \<le> a \<Longrightarrow> 0 \<le> rne a"
  using rne_mono[of 0 a] rne_of_int[of 0] by simp

lemma expo_ge: "- 1022 \<le> expo x"
  by (simp add: expo_def)

lemma floor_log2_bounds:
  assumes "0 < x"
  shows "pow2 \<lfloor>log 2 x\<rfloor> \<le> x" and "x < pow2 (\<lfloor>log 2 x\<rfloor> + 1)"
proof -
  have "2 powr of_int \<lfloor>log 2 x\<rfloor> \<le> x \<and> x < 2 powr of_int (\<lfloor>log 2 x\<rfloor> + 1)"
    using floor_log_eq_powr_iff[of x 2 "\<lfloor>log 2 x\<rfloor>"] assms by simp
  then show "pow2 \<lfloor>log 2 x\<rfloor> \<le> x" and "x < pow2 (\<lfloor>log 2 x\<rfloor> + 1)"
    by (simp_all add: pow2_def)
qed

lemma expo_upper:
  assumes "0 < x"
  shows "x < pow2 (expo x + 1)"
proof -
  have "x < pow2 (\<lfloor>log 2 x\<rfloor> + 1)" using floor_log2_bounds(2)[OF assms] .
  also have "\<dots> \<le> pow2 (expo x + 1)"
    using assms by (intro pow2_mono) (simp add: expo_def)
  finally show ?thesis .
qed

lemma expo_lower:
  assumes "0 < x" and "- 1022 < expo x"
  shows "pow2 (expo x) \<le> x"
proof -
  have e: "expo x = \<lfloor>log 2 x\<rfloor>" using assms by (simp add: expo_def max_def split: if_splits)
  show ?thesis unfolding e using floor_log2_bounds(1)[OF assms(1)] .
qed

lemma expo_mono:
  assumes "0 < x" and "x \<le> y"
  shows "expo x \<le> expo y"
proof -
  have "log 2 x \<le> log 2 y" using assms by simp
  then have "\<lfloor>log 2 x\<rfloor> \<le> \<lfloor>log 2 y\<rfloor>" by (rule floor_mono)
  then show ?thesis using assms by (simp add: expo_def)
qed

lemma expo_eq:
  assumes "0 < x" and "pow2 e \<le> x" and "x < pow2 (e + 1)" and "- 1022 \<le> e"
  shows "expo x = e"
proof -
  have "\<lfloor>log 2 x\<rfloor> = e"
    using assms(1,2,3) by (simp add: floor_log_eq_powr_iff pow2_def)
  then show ?thesis using assms(1,4) by (simp add: expo_def)
qed

lemma pow2_53: "pow2 53 = of_int (2 ^ 53)"
  by (simp add: pow2_eval)

lemma pow2_52: "pow2 52 = of_int (2 ^ 52)"
  by (simp add: pow2_eval)

lemma quant_upper:
  assumes "0 < x"
  shows "quant x \<le> pow2 (expo x + 1)"
proof -
  let ?u = "pow2 (expo x - 52)"
  have split: "pow2 (expo x + 1) = pow2 53 * ?u"
    using pow2_add[of 53 "expo x - 52"] by (simp add: algebra_simps)
  have "x < pow2 53 * ?u" using expo_upper[OF assms] split by simp
  then have "x / ?u \<le> pow2 53" by (simp add: pos_divide_le_eq less_imp_le)
  then have "rne (x / ?u) \<le> rne (of_int (2 ^ 53))"
    unfolding pow2_53 by (rule rne_mono)
  then have "of_int (rne (x / ?u)) \<le> pow2 53"
    unfolding pow2_53 rne_of_int by simp
  then have "of_int (rne (x / ?u)) * ?u \<le> pow2 53 * ?u"
    by (intro mult_right_mono) simp_all
  then show ?thesis unfolding quant_def split .
qed

lemma quant_lower:
  assumes "0 < x" and "- 1022 < expo x"
  shows "pow2 (expo x) \<le> quant x"
proof -
  let ?u = "pow2 (expo x - 52)"
  have split: "pow2 (expo x) = pow2 52 * ?u"
    using pow2_add[of 52 "expo x - 52"] by (simp add: algebra_simps)
  have "pow2 52 * ?u \<le> x" using expo_lower[OF assms] split by simp
  then have "pow2 52 \<le> x / ?u" by (simp add: pos_le_divide_eq)
  then have "rne (of_int (2 ^ 52)) \<le> rne (x / ?u)"
    unfolding pow2_52 by (rule rne_mono)
  then have "pow2 52 \<le> of_int (rne (x / ?u))"
    unfolding pow2_52 rne_of_int by simp
  then have "pow2 52 * ?u \<le> of_int (rne (x / ?u)) * ?u"
    by (intro mult_right_mono) simp_all
  then show ?thesis unfolding quant_def split .
qed

lemma quant_nonneg:
  assumes "0 < x"
  shows "0 \<le> quant x"
proof -
  have "0 \<le> x / pow2 (expo x - 52)" using assms by simp
  then have "0 \<le> rne (x / pow2 (expo x - 52))" by (rule rne_nonneg)
  then show ?thesis unfolding quant_def by simp
qed

lemma quant_mono:
  assumes "0 < x" and "x \<le> y"
  shows "quant x \<le> quant y"
proof (cases "expo x = expo y")
  case True
  have "x / pow2 (expo y - 52) \<le> y / pow2 (expo y - 52)"
    using assms(2) by (simp add: divide_right_mono)
  then have "rne (x / pow2 (expo y - 52)) \<le> rne (y / pow2 (expo y - 52))"
    by (rule rne_mono)
  then show ?thesis
    unfolding quant_def True by (intro mult_right_mono) simp_all
next
  case False
  have ypos: "0 < y" using assms by simp
  have lt: "expo x < expo y" using expo_mono[OF assms] False by simp
  then have "- 1022 < expo y" using expo_ge[of x] by simp
  then have low: "pow2 (expo y) \<le> quant y" by (rule quant_lower[OF ypos])
  have "quant x \<le> pow2 (expo x + 1)" by (rule quant_upper[OF assms(1)])
  also have "\<dots> \<le> pow2 (expo y)" using lt by (intro pow2_mono) simp
  finally show ?thesis using low by simp
qed

lemma round_mag_mono:
  assumes "0 \<le> x" and "x \<le> y"
  shows "fle (round_mag x) (round_mag y)"
proof (cases "x = 0")
  case True
  show ?thesis
  proof (cases "y = 0")
    case True
    with \<open>x = 0\<close> show ?thesis by (simp add: round_mag_def)
  next
    case False
    then have "0 < y" using assms True by simp
    then have "0 \<le> quant y" by (rule quant_nonneg)
    then show ?thesis using True False by (simp add: round_mag_def)
  qed
next
  case False
  then have xpos: "0 < x" using assms(1) by simp
  then have ynz: "y \<noteq> 0" using assms(2) by simp
  have "quant x \<le> quant y" by (rule quant_mono[OF xpos assms(2)])
  then show ?thesis using False ynz by (simp add: round_mag_def)
qed

lemma round_mag_nonneg:
  assumes "0 \<le> x"
  shows "fle (Fin 0) (round_mag x)"
  using round_mag_mono[of 0 x] assms by (simp add: round_mag_def)

lemma fle_fneg: "fle a b \<Longrightarrow> fle (fneg b) (fneg a)"
  by (cases a; cases b) simp_all

lemma fle_trans: "fle a b \<Longrightarrow> fle b c \<Longrightarrow> fle a c"
  by (cases a; cases b; cases c) simp_all

text \<open>Rounding to nearest is monotone.\<close>

lemma round64_mono:
  assumes "x \<le> y"
  shows "fle (round64 x) (round64 y)"
proof -
  consider "0 \<le> x" | "x < 0" "y < 0" | "x < 0" "0 \<le> y" by linarith
  then show ?thesis
  proof cases
    case 1
    then show ?thesis using assms round_mag_mono[of x y] by (simp add: round64_def)
  next
    case 2
    then have "fle (round_mag (- y)) (round_mag (- x))"
      using assms by (intro round_mag_mono) simp_all
    then show ?thesis using 2 by (simp add: round64_def fle_fneg)
  next
    case 3
    have a: "fle (fneg (round_mag (- x))) (Fin 0)"
      using fle_fneg[OF round_mag_nonneg[of "- x"]] 3 by simp
    have b: "fle (Fin 0) (round_mag y)" using 3 by (intro round_mag_nonneg)
    show ?thesis using 3 fle_trans[OF a b] by (simp add: round64_def)
  qed
qed

text \<open>
  Rounding to nearest is exact at \<open>k / 2\<^sup>n\<close> for an integer \<open>k\<close> of magnitude below \<open>2\<^sup>5\<^sup>3\<close>
  and \<open>n\<close> up to 1022.
\<close>

lemma round_mag_dyadic:
  assumes "x = of_int k / 2 ^ n" and "0 < k" and "k < 2 ^ 53" and "n \<le> 1022"
  shows "round_mag x = Fin x"
proof -
  have xpos: "0 < x" using assms(1,2) by simp
  let ?e = "expo x"
  have xn: "x = of_int k * pow2 (- int n)"
    using assms(1) by (simp add: pow2_eval divide_inverse)
  have xlt: "x < pow2 (53 - int n)"
  proof -
    have "of_int k < (2::real) ^ 53" using assms(3) by (metis of_int_less_iff of_int_numeral of_int_power)
    then have "of_int k * pow2 (- int n) < 2 ^ 53 * pow2 (- int n)"
      by (intro mult_strict_right_mono) simp_all
    also have "\<dots> = pow2 (53 - int n)"
      using pow2_add[of 53 "- int n"] by (simp add: pow2_eval)
    finally show ?thesis using xn by simp
  qed
  have ele: "?e \<le> 52 - int n"
  proof (cases "- 1022 < ?e")
    case True
    have "pow2 ?e \<le> x" by (rule expo_lower[OF xpos True])
    then have "pow2 ?e < pow2 (53 - int n)" using xlt by simp
    then have "?e < 53 - int n"
      by (metis leI pow2_mono not_less)
    then show ?thesis by simp
  next
    case False
    then have "?e = - 1022" using expo_ge[of x] by simp
    then show ?thesis using assms(4) by simp
  qed
  define j where "j = nat (52 - int n - ?e)"
  have j: "int j = 52 - int n - ?e" using ele by (simp add: j_def)
  have "x / pow2 (?e - 52) = of_int k * (pow2 (- int n) / pow2 (?e - 52))"
    using xn by simp
  also have "pow2 (- int n) / pow2 (?e - 52) = pow2 (int j)"
  proof -
    have "- int n - (?e - 52) = int j" using j by simp
    then show ?thesis using pow2_diff[of "- int n" "?e - 52"] by simp
  qed
  also have "pow2 (int j) = 2 ^ j" by (simp add: pow2_eval)
  finally have q: "x / pow2 (?e - 52) = of_int (k * 2 ^ j)" by simp
  have "quant x = of_int (k * 2 ^ j) * pow2 (?e - 52)"
    unfolding quant_def q rne_of_int ..
  also have "\<dots> = x / pow2 (?e - 52) * pow2 (?e - 52)" unfolding q ..
  also have "\<dots> = x" by simp
  finally have qx: "quant x = x" .
  have "x < pow2 53" using xlt pow2_mono[of "53 - int n" 53] by simp
  also have "\<dots> \<le> pow2 1024" by (intro pow2_mono) simp
  finally have "\<not> pow2 1024 \<le> x" by simp
  then show ?thesis using xpos by (simp add: round_mag_def qx)
qed

lemma round64_dyadic:
  assumes "x = of_int k / 2 ^ n" and "\<bar>k\<bar> < 2 ^ 53" and "n \<le> 1022"
  shows "round64 x = Fin x"
proof -
  consider "k = 0" | "0 < k" | "k < 0" by linarith
  then show ?thesis
  proof cases
    case 1
    then show ?thesis using assms(1) by (simp add: round64_def round_mag_def)
  next
    case 2
    then have "0 < x" using assms(1) by simp
    moreover have "round_mag x = Fin x"
      using round_mag_dyadic[of x k n] assms 2 by simp
    ultimately show ?thesis by (simp add: round64_def)
  next
    case 3
    then have neg: "x < 0" using assms(1) by (simp add: divide_neg_pos)
    have "round_mag (- x) = Fin (- x)"
      using round_mag_dyadic[of "- x" "- k" n] assms 3 by simp
    then show ?thesis using neg by (simp add: round64_def)
  qed
qed

section \<open>Facts about the order of floating-point values\<close>

lemma fle_refl: "x \<noteq> NaN \<Longrightarrow> fle x x"
  by (cases x) simp_all

lemma fle_not_nan: "fle x y \<Longrightarrow> x \<noteq> NaN \<and> y \<noteq> NaN"
  by (cases x; cases y) simp_all

lemma rnd_mono: "rnd_contract rnd \<Longrightarrow> x \<le> y \<Longrightarrow> fle (rnd x) (rnd y)"
  by (simp add: rnd_contract_def)

lemma rnd_not_nan: "rnd_contract rnd \<Longrightarrow> rnd x \<noteq> NaN"
  using rnd_mono[of rnd x x] fle_not_nan by blast

lemma rnd_nonneg: "rnd_contract rnd \<Longrightarrow> 0 \<le> x \<Longrightarrow> fle (Fin 0) (rnd x)"
  using rnd_mono[of rnd 0 x] by (simp add: rnd_contract_def)



lemma rounded_nan: "rnd_contract rnd \<Longrightarrow> rounded rnd x = NaN \<longleftrightarrow> x = NaN"
  by (cases x) (simp_all add: rounded_def rnd_not_nan)

lemma rounded_mono:
  assumes "rnd_contract rnd" and "fle x y"
  shows "fle (rounded rnd x) (rounded rnd y)"
proof -
  have n: "rnd a \<noteq> NaN" for a using rnd_not_nan[OF assms(1)] .
  have a: "fle (rnd a) PInf" for a using n[of a] by (cases "rnd a") simp_all
  have b: "fle MInf (rnd a)" for a using n[of a] by (cases "rnd a") simp_all
  show ?thesis
    using assms(2) rnd_mono[OF assms(1)] a b
    by (cases x; cases y) (simp_all add: rounded_def)
qed

lemma fadd_nan: "fadd x y \<noteq> NaN \<Longrightarrow> x \<noteq> NaN \<and> y \<noteq> NaN"
  by (cases x; cases y) simp_all

lemma fadd_mono:
  assumes "fle a a'" and "fle b b'" and "fadd a b \<noteq> NaN" and "fadd a' b' \<noteq> NaN"
  shows "fle (fadd a b) (fadd a' b')"
  using assms by (cases a; cases a'; cases b; cases b') simp_all

lemma fadd_r_mono:
  assumes "rnd_contract rnd" and "fle a a'" and "fle b b'"
    and "fadd_r rnd a b \<noteq> NaN" and "fadd_r rnd a' b' \<noteq> NaN"
  shows "fle (fadd_r rnd a b) (fadd_r rnd a' b')"
proof -
  have "fadd a b \<noteq> NaN" and "fadd a' b' \<noteq> NaN"
    using assms(4,5) by (simp_all add: fadd_r_def rounded_nan[OF assms(1)])
  then have "fle (fadd a b) (fadd a' b')" using assms(2,3) by (intro fadd_mono)
  then show ?thesis unfolding fadd_r_def by (rule rounded_mono[OF assms(1)])
qed

lemma fsub_r_fadd_r: "fsub_r rnd x y = fadd_r rnd x (fneg y)"
  by (simp add: fsub_r_def fadd_r_def fsub_def)

lemma fneg_fneg [simp]: "fneg (fneg x) = x"
  by (cases x) simp_all

lemma fneg_nan [simp]: "fneg x = NaN \<longleftrightarrow> x = NaN"
  by (cases x) simp_all

lemma fadd_r_nan:
  "rnd_contract rnd \<Longrightarrow> fadd_r rnd x y \<noteq> NaN \<Longrightarrow> x \<noteq> NaN \<and> y \<noteq> NaN"
  using fadd_nan[of x y] by (simp add: fadd_r_def rounded_nan)


text \<open>Below and above a non-negative margin.\<close>

lemma margin_ordered:
  assumes "rnd_contract rnd" and "fle (Fin 0) t"
    and "fsub_r rnd m t \<noteq> NaN" and "fadd_r rnd m t \<noteq> NaN"
  shows "fle (fsub_r rnd m t) (fadd_r rnd m t)"
proof -
  have m: "m \<noteq> NaN" using fadd_r_nan[OF assms(1,4)] by simp
  have "fle (fneg t) t" using assms(2) by (cases t) simp_all
  then show ?thesis
    unfolding fsub_r_fadd_r
    using assms(3,4) by (intro fadd_r_mono[OF assms(1)] fle_refl[OF m]) (simp_all add: fsub_r_fadd_r)
qed


text \<open>Signs of products, quotients and square roots.\<close>

lemma fsqrt_r_sign:
  assumes "rnd_contract rnd"
  shows "fsqrt_r rnd x = NaN \<or> fle (Fin 0) (fsqrt_r rnd x)"
  using rnd_nonneg[OF assms, of "sqrt a" for a]
  by (cases x) (simp_all add: fsqrt_r_def rounded_def)

lemma fmul_r_nonneg:
  assumes "rnd_contract rnd" and "fle (Fin 0) a" and "fle (Fin 0) b"
  shows "fmul_r rnd a b = NaN \<or> fle (Fin 0) (fmul_r rnd a b)"
  using assms(2,3) rnd_nonneg[OF assms(1), of "x * y" for x y]
  by (cases a; cases b) (simp_all add: fmul_r_def rounded_def inf_signed_def sgn_if)


lemma fdiv_r_nonneg:
  assumes "rnd_contract rnd" and "fle (Fin 0) a" and "fle (Fin 0) b"
  shows "fdiv_r rnd a b = NaN \<or> fle (Fin 0) (fdiv_r rnd a b)"
  using assms(2,3) rnd_nonneg[OF assms(1), of "x / y" for x y] assms(1)
  by (cases a; cases b) (auto simp add: fdiv_r_def rounded_def inf_signed_def sgn_if rnd_contract_def)


section \<open>Facts about the estimator in float64\<close>

lemma fmul_r_nan:
  "rnd_contract rnd \<Longrightarrow> fmul_r rnd x y \<noteq> NaN \<Longrightarrow> x \<noteq> NaN \<and> y \<noteq> NaN"
  by (cases x; cases y) (simp_all add: fmul_r_def rounded_nan)

lemma fdiv_r_nan:
  "rnd_contract rnd \<Longrightarrow> fdiv_r rnd x y \<noteq> NaN \<Longrightarrow> x \<noteq> NaN \<and> y \<noteq> NaN"
  by (cases x; cases y) (simp_all add: fdiv_r_def rounded_nan)

lemma quantile_nonneg:
  assumes "rnd_contract rnd" and "norm_ppf_contract ppf" and "alpha \<le> 1"
  shows "norm_ppf_at ppf (fsub_r rnd (Fin 1) (fdiv_r rnd (Fin alpha) (Fin 2))) = NaN \<or>
         fle (Fin 0) (norm_ppf_at ppf (fsub_r rnd (Fin 1) (fdiv_r rnd (Fin alpha) (Fin 2))))"
proof -
  have a2: "fle (rnd (alpha / 2)) (Fin (1 / 2))"
    using rnd_mono[OF assms(1), of "alpha / 2" "1 / 2"] assms(1,3) by (simp add: rnd_contract_def)
  have d: "fdiv_r rnd (Fin alpha) (Fin 2) = rnd (alpha / 2)"
    by (simp add: fdiv_r_def rounded_def)
  have ppf_ge: "ppf p = NaN \<or> fle (Fin 0) (ppf p)" if ge: "1 / 2 \<le> p" for p
  proof -
    note c = assms(2)[unfolded norm_ppf_contract_def]
    have h: "ppf (1 / 2) = Fin 0" "ppf 1 = PInf" using c by blast+
    consider "p = 1 / 2" | "p = 1" | "1 < p" | "1 / 2 < p \<and> p < 1" using ge by linarith
    then show ?thesis
    proof cases
      case 1
      show ?thesis unfolding 1 h by simp
    next
      case 2
      show ?thesis unfolding 2 h by simp
    next
      case 3
      then have "ppf p = NaN" using c by blast
      then show ?thesis by simp
    next
      case 4
      then obtain z where "ppf p = Fin z" and "0 < z" using c by blast
      then show ?thesis by simp
    qed
  qed
  show ?thesis
  proof (cases "rnd (alpha / 2)")
    case (Fin a)
    then have "a \<le> 1 / 2" using a2 by simp
    then have "fle (Fin (1 / 2)) (rnd (1 - a))"
      using rnd_mono[OF assms(1), of "1 / 2" "1 - a"] assms(1) by (simp add: rnd_contract_def)
    then show ?thesis
      using ppf_ge
      by (cases "rnd (1 - a)") (simp_all add: d Fin fsub_r_def fsub_def rounded_def norm_ppf_at_def)
  next
    case PInf
    then show ?thesis using a2 by simp
  next
    case MInf
    then show ?thesis by (simp add: d fsub_r_def fsub_def rounded_def norm_ppf_at_def)
  next
    case NaN
    then show ?thesis using a2 by simp
  qed
qed


lemma std_sign:
  assumes "rnd_contract rnd"
  shows "np_std_f64 rnd add_reduce a ddof = NaN \<or> fle (Fin 0) (np_std_f64 rnd add_reduce a ddof)"
  unfolding np_std_f64_def Let_def by (rule fsqrt_r_sign[OF assms])

lemma interval_ordered_f64:
  assumes "rnd_contract rnd" and "norm_ppf_contract ppf" and "alpha \<le> 1"
    and "fst (calculate_confidence_interval_of_sample_mean_f64 rnd add_reduce ppf sample alpha) \<noteq> NaN"
    and "snd (calculate_confidence_interval_of_sample_mean_f64 rnd add_reduce ppf sample alpha) \<noteq> NaN"
  shows "fle (fst (calculate_confidence_interval_of_sample_mean_f64 rnd add_reduce ppf sample alpha))
             (snd (calculate_confidence_interval_of_sample_mean_f64 rnd add_reduce ppf sample alpha))"
proof -
  define m where "m = np_mean_f64 rnd add_reduce sample"
  define s where "s = np_std_f64 rnd add_reduce sample 1"
  define z where "z = norm_ppf_at ppf (fsub_r rnd (Fin 1) (fdiv_r rnd (Fin alpha) (Fin 2)))"
  define r where "r = fsqrt_r rnd (rnd (real (length sample)))"
  define t where "t = fdiv_r rnd (fmul_r rnd z s) r"
  have c: "calculate_confidence_interval_of_sample_mean_f64 rnd add_reduce ppf sample alpha =
      (fsub_r rnd m t, fadd_r rnd m t)"
    by (simp add: calculate_confidence_interval_of_sample_mean_f64_def Let_def m_def s_def z_def
        r_def t_def)
  have lb: "fsub_r rnd m t \<noteq> NaN" and ub: "fadd_r rnd m t \<noteq> NaN"
    using assms(4,5) by (simp_all add: c)
  have tn: "t \<noteq> NaN" using fadd_r_nan[OF assms(1) ub] by simp
  then have wn: "fmul_r rnd z s \<noteq> NaN" and rn: "r \<noteq> NaN"
    using fdiv_r_nan[OF assms(1), of "fmul_r rnd z s" r] by (simp_all add: t_def)
  then have zn: "z \<noteq> NaN" and sn: "s \<noteq> NaN"
    using fmul_r_nan[OF assms(1), of z s] by simp_all
  have z0: "fle (Fin 0) z" using quantile_nonneg[OF assms(1,2,3)] zn by (simp add: z_def)
  have s0: "fle (Fin 0) s" using std_sign[OF assms(1), of add_reduce sample 1] sn by (simp add: s_def)
  have r0: "fle (Fin 0) r" using fsqrt_r_sign[OF assms(1), of "rnd (real (length sample))"] rn
    by (simp add: r_def)
  have w0: "fle (Fin 0) (fmul_r rnd z s)" using fmul_r_nonneg[OF assms(1) z0 s0] wn by simp
  have t0: "fle (Fin 0) t" using fdiv_r_nonneg[OF assms(1) w0 r0] tn by (simp add: t_def)
  show ?thesis unfolding c using margin_ordered[OF assms(1) t0 lb ub] by simp
qed



section \<open>Facts about the width in float64\<close>




lemma round64_zero: "round64 0 = Fin 0"
  by (simp add: round64_def round_mag_def)

lemma round64_int:
  assumes "\<bar>k\<bar> < 2 ^ 53"
  shows "round64 (of_int k) = Fin (of_int k)"
  using round64_dyadic[of "of_int k" k 0] assms by simp

lemma round64_contract: "rnd_contract round64"
  unfolding rnd_contract_def
  using round64_mono round64_zero round64_dyadic[of "1 / 2" 1 1] round64_dyadic[of 1 1 0]
  by simp

lemma stub_ppf_contract: "norm_ppf_contract stub_ppf"
  unfolding norm_ppf_contract_def stub_ppf_def by auto

lemma round64_tie_one: "round64 (1 - 1 / 2 ^ 54) = Fin 1"
proof -
  let ?x = "1 - 1 / 2 ^ 54 :: real"
  have pos: "0 < ?x" by simp
  have e: "expo ?x = - 1"
    by (rule expo_eq) (simp_all add: pow2_eval)
  have q: "?x / pow2 (- 53) = 18014398509481983 / 2"
    by (simp add: pow2_eval)
  have r: "rne (18014398509481983 / 2) = 9007199254740992"
    by (simp add: rne_def Let_def)
  have "quant ?x = 1"
    unfolding quant_def e using q r by (simp add: pow2_eval)
  then show ?thesis using pos by (simp add: round64_def round_mag_def pow2_eval)
qed

section \<open>Runs of the estimator in float64\<close>

lemma fadd_r_Fin: "fadd_r rnd (Fin a) (Fin b) = rnd (a + b)"
  by (simp add: fadd_r_def rounded_def)

lemma fsub_r_Fin: "fsub_r rnd (Fin a) (Fin b) = rnd (a - b)"
  by (simp add: fsub_r_def fsub_def rounded_def)

lemma fmul_r_Fin: "fmul_r rnd (Fin a) (Fin b) = rnd (a * b)"
  by (simp add: fmul_r_def rounded_def)

lemma fdiv_r_Fin: "b \<noteq> 0 \<Longrightarrow> fdiv_r rnd (Fin a) (Fin b) = rnd (a / b)"
  by (simp add: fdiv_r_def rounded_def)

lemma fsqrt_r_Fin: "0 \<le> a \<Longrightarrow> fsqrt_r rnd (Fin a) = rnd (sqrt a)"
  by (simp add: fsqrt_r_def rounded_def)

lemmas f64_ops = fadd_r_Fin fsub_r_Fin fmul_r_Fin fdiv_r_Fin fsqrt_r_Fin

lemma round64_minus: "round64 (- x) = fneg (round64 x)"
  by (cases "x = 0") (auto simp add: round64_def round_mag_def)

lemma round64_one: "round64 1 = Fin 1"
  using round64_dyadic[of 1 1 0] by simp

lemma round64_numeral: "numeral n < (2::int) ^ 53 \<Longrightarrow> round64 (numeral n) = Fin (numeral n)"
  using round64_int[of "numeral n"] by simp

lemma round64_numeral_div_pow2:
  assumes "numeral n < (2::int) ^ 53" and "k \<le> 1022"
  shows "round64 (numeral n / 2 ^ k) = Fin (numeral n / 2 ^ k)"
  using round64_dyadic[of "numeral n / 2 ^ k" "numeral n" k] assms by simp

lemma round64_one_div_pow2:
  assumes "k \<le> 1022"
  shows "round64 (1 / 2 ^ k) = Fin (1 / 2 ^ k)"
  using round64_dyadic[of "1 / 2 ^ k" 1 k] assms by simp

lemma round64_halves:
  "numeral n < (2::int) ^ 53 \<Longrightarrow> round64 (numeral n / 2) = Fin (numeral n / 2)"
  "numeral n < (2::int) ^ 53 \<Longrightarrow> round64 (numeral n / 4) = Fin (numeral n / 4)"
  "numeral n < (2::int) ^ 53 \<Longrightarrow> round64 (numeral n / 8) = Fin (numeral n / 8)"
  "numeral n < (2::int) ^ 53 \<Longrightarrow> round64 (numeral n / 16) = Fin (numeral n / 16)"
  "numeral n < (2::int) ^ 53 \<Longrightarrow> round64 (numeral n / 32) = Fin (numeral n / 32)"
  "round64 (1 / 2) = Fin (1 / 2)"
  "round64 (1 / 4) = Fin (1 / 4)"
  "round64 (1 / 8) = Fin (1 / 8)"
  "round64 (1 / 16) = Fin (1 / 16)"
  "round64 (1 / 32) = Fin (1 / 32)"
  using round64_numeral_div_pow2[of n 1] round64_numeral_div_pow2[of n 2]
    round64_numeral_div_pow2[of n 3] round64_numeral_div_pow2[of n 4]
    round64_numeral_div_pow2[of n 5]
    round64_one_div_pow2[of 1] round64_one_div_pow2[of 2] round64_one_div_pow2[of 3]
    round64_one_div_pow2[of 4] round64_one_div_pow2[of 5]
  by simp_all

lemmas round64_exact = round64_zero round64_one round64_numeral round64_minus round64_halves

lemma round64_tiny: "round64 (1 / 18014398509481984) = Fin (1 / 18014398509481984)"
  using round64_one_div_pow2[of 54] by simp

lemma round64_tie: "round64 (18014398509481983 / 18014398509481984) = Fin 1"
  using round64_tie_one by simp




lemma mean_5_5: "np_mean_f64 round64 (seq_sum round64) [5, 5] = Fin 5"
  by (simp add: np_mean_f64_def seq_sum_def f64_ops round64_exact)

lemma std_5_5: "np_std_f64 round64 (seq_sum round64) [5, 5] 1 = Fin 0"
  by (simp add: np_std_f64_def Let_def seq_sum_def f64_ops round64_exact)





lemma mean_3_1_1_1: "np_mean_f64 round64 (seq_sum round64) [3, 1, 1, 1] = Fin (3 / 2)"
  by (simp add: np_mean_f64_def seq_sum_def f64_ops round64_exact)

lemma std_3_1_1_1: "np_std_f64 round64 (seq_sum round64) [3, 1, 1, 1] 1 = Fin 1"
  by (simp add: np_std_f64_def Let_def seq_sum_def f64_ops round64_exact)

lemma quantile_at_tiny_alpha:
  "norm_ppf_at stub_ppf (fsub_r round64 (Fin 1) (fdiv_r round64 (Fin (1 / 2 ^ 53)) (Fin 2))) = PInf"
  by (simp add: f64_ops round64_tiny round64_tie norm_ppf_at_def stub_ppf_def)

lemma interval_3_1_1_1:
  "calculate_confidence_interval_of_sample_mean_f64 round64 (seq_sum round64) stub_ppf
     [3, 1, 1, 1] (1 / 4) = (Fin (21 / 16), Fin (27 / 16))"
  unfolding calculate_confidence_interval_of_sample_mean_f64_def Let_def mean_3_1_1_1
    std_3_1_1_1
  by (simp add: f64_ops round64_exact norm_ppf_at_def stub_ppf_def)






lemma interval_nan_5_5:
  "calculate_confidence_interval_of_sample_mean_f64 round64 (seq_sum round64) stub_ppf
     [5, 5] (1 / 2 ^ 53) = (NaN, NaN)"
  unfolding calculate_confidence_interval_of_sample_mean_f64_def Let_def mean_5_5
    std_5_5 quantile_at_tiny_alpha
  by (simp add: fmul_r_def fdiv_r_def fsub_r_def fadd_r_def fsub_def rounded_def inf_signed_def)

lemma quantile_valid:
  assumes "rnd_contract rnd" and "norm_ppf_contract ppf" and "0 \<le> alpha" and "alpha \<le> 1"
  shows "norm_ppf_at ppf (fsub_r rnd (Fin 1) (fdiv_r rnd (Fin alpha) (Fin 2))) = PInf \<or>
         (\<exists>z. norm_ppf_at ppf (fsub_r rnd (Fin 1) (fdiv_r rnd (Fin alpha) (Fin 2))) = Fin z \<and>
              0 \<le> z)"
proof -
  note c = assms(2)[unfolded norm_ppf_contract_def]
  have h: "ppf (1 / 2) = Fin 0" "ppf 1 = PInf" using c by blast+
  have lo: "fle (Fin 0) (rnd (alpha / 2))"
    using assms(3) by (intro rnd_nonneg[OF assms(1)]) simp
  have hi: "fle (rnd (alpha / 2)) (Fin (1 / 2))"
    using rnd_mono[OF assms(1), of "alpha / 2" "1 / 2"] assms(1,4) by (simp add: rnd_contract_def)
  obtain a where a: "rnd (alpha / 2) = Fin a" and a0: "0 \<le> a" and a1: "a \<le> 1 / 2"
    using lo hi by (cases "rnd (alpha / 2)") simp_all
  have plo: "fle (Fin (1 / 2)) (rnd (1 - a))"
    using rnd_mono[OF assms(1), of "1 / 2" "1 - a"] assms(1) a1 by (simp add: rnd_contract_def)
  have phi: "fle (rnd (1 - a)) (Fin 1)"
    using rnd_mono[OF assms(1), of "1 - a" 1] assms(1) a0 by (simp add: rnd_contract_def)
  obtain p where p: "rnd (1 - a) = Fin p" and p0: "1 / 2 \<le> p" and p1: "p \<le> 1"
    using plo phi by (cases "rnd (1 - a)") simp_all
  have e: "norm_ppf_at ppf (fsub_r rnd (Fin 1) (fdiv_r rnd (Fin alpha) (Fin 2))) = ppf p"
    by (simp add: fdiv_r_def fsub_r_def fsub_def rounded_def a p norm_ppf_at_def)
  consider "p = 1 / 2" | "p = 1" | "1 / 2 < p \<and> p < 1" using p0 p1 by linarith
  then show ?thesis
  proof cases
    case 1
    show ?thesis unfolding e 1 h by simp
  next
    case 2
    show ?thesis unfolding e 2 h by simp
  next
    case 3
    then obtain z where "ppf p = Fin z" and "0 < z" using c by blast
    then show ?thesis unfolding e by simp
  qed
qed

lemma interval_not_nan_f64:
  assumes "rnd_contract rnd" and "norm_ppf_contract ppf" and "0 \<le> alpha" and "alpha \<le> 1"
    and "np_mean_f64 rnd add_reduce sample = Fin m"
    and "np_std_f64 rnd add_reduce sample 1 = Fin s"
    and "fsqrt_r rnd (rnd (real (length sample))) = Fin r" and "r \<noteq> 0"
    and "s \<noteq> 0 \<or>
         norm_ppf_at ppf (fsub_r rnd (Fin 1) (fdiv_r rnd (Fin alpha) (Fin 2))) \<noteq> PInf"
  shows "fst (calculate_confidence_interval_of_sample_mean_f64 rnd add_reduce ppf sample alpha) \<noteq> NaN \<and>
         snd (calculate_confidence_interval_of_sample_mean_f64 rnd add_reduce ppf sample alpha) \<noteq> NaN"
proof -
  define z where "z = norm_ppf_at ppf (fsub_r rnd (Fin 1) (fdiv_r rnd (Fin alpha) (Fin 2)))"
  define t where "t = fdiv_r rnd (fmul_r rnd z (Fin s)) (Fin r)"
  have c: "calculate_confidence_interval_of_sample_mean_f64 rnd add_reduce ppf sample alpha =
      (fsub_r rnd (Fin m) t, fadd_r rnd (Fin m) t)"
    unfolding calculate_confidence_interval_of_sample_mean_f64_def Let_def assms(5,6,7)
      z_def t_def by (rule refl)
  have n: "rnd x \<noteq> NaN" for x using rnd_not_nan[OF assms(1)] .
  have wn: "fmul_r rnd z (Fin s) \<noteq> NaN"
    using quantile_valid[OF assms(1,2,3,4)] assms(9) n
    by (auto simp add: z_def[symmetric] fmul_r_def rounded_def inf_signed_def sgn_if
        split: if_splits)
  have tn: "t \<noteq> NaN"
    using wn assms(8) n unfolding t_def
    by (cases "fmul_r rnd z (Fin s)") (simp_all add: fdiv_r_def rounded_def inf_signed_def)
  have "fsub_r rnd (Fin m) t \<noteq> NaN" and "fadd_r rnd (Fin m) t \<noteq> NaN"
    using tn n by (cases t; simp add: fsub_r_def fadd_r_def fsub_def rounded_def)+
  then show ?thesis by (simp add: c)
qed
























lemma interval_nan_quantile:
  assumes "norm_ppf_at ppf (fsub_r rnd (Fin 1) (fdiv_r rnd (Fin alpha) (Fin 2))) = NaN"
  shows "calculate_confidence_interval_of_sample_mean_f64 rnd add_reduce ppf sample alpha =
         (NaN, NaN)"
proof -
  have a: "fsub x NaN = NaN" "fadd x NaN = NaN" for x
    by (cases x; simp add: fsub_def)+
  show ?thesis
    unfolding calculate_confidence_interval_of_sample_mean_f64_def Let_def assms
    by (simp add: fmul_r_def fdiv_r_def fsub_r_def fadd_r_def rounded_def a)
qed


section \<open>The estimator in exact arithmetic\<close>

text \<open>
  With the rounding that stores every result exactly, the \<^verbatim>\<open>float64\<close> function is the
  function in exact arithmetic, and no operation rounds at any sample.
\<close>

lemma exact_arithmetic_sum: "fsum (map Fin a) = Fin (sum_list a)"
  by (induction a) simp_all

lemma rounded_exact [simp]: "rounded Fin x = x"
  by (cases x) (simp_all add: rounded_def)

lemma exact_arithmetic_model:
  "calculate_confidence_interval_of_sample_mean_f64 Fin fsum ppf sample alpha =
   calculate_confidence_interval_of_sample_mean ppf sample alpha"
  by (simp add: calculate_confidence_interval_of_sample_mean_f64_def
      calculate_confidence_interval_of_sample_mean_def np_mean_f64_def np_mean_def
      np_std_f64_def np_std_def Let_def fadd_r_def fsub_r_def fmul_r_def fdiv_r_def fsqrt_r_def
      norm_ppf_at_def exact_arithmetic_sum fsub_def)

lemma exact_arithmetic_sum_map: "fsum (map (\<lambda>x. Fin (f x)) a) = Fin (\<Sum>x\<leftarrow>a. f x)"
  by (induction a) simp_all

lemma no_rounding_exact_arithmetic: "no_rounding Fin fsum xs alpha z"
  by (simp add: no_rounding_def Let_def exact_arithmetic_sum exact_arithmetic_sum_map
      sum_sq_dev_def power2_eq_square)






lemma interval_nan_negative_alpha:
  "calculate_confidence_interval_of_sample_mean_f64 round64 (seq_sum round64) stub_ppf
     [3, 1, 1, 1] (- 1) = (NaN, NaN)"
  by (rule interval_nan_quantile)
     (simp add: f64_ops round64_exact norm_ppf_at_def stub_ppf_def)




section \<open>The claims\<close>




text \<open>
  C2, as amended. The cell validates nothing, and the estimator has no failing path: for a
  sample of fewer than two values it returns \<^verbatim>\<open>(nan, nan)\<close>, and for every significance
  level it returns a pair. A trial fails exactly when drawing its sample fails, with the
  sampler's error; the coverage estimate fails exactly when one of its draws fails, and then
  no value is produced; with zero trials it is \<^verbatim>\<open>nan\<close>, not an error.
\<close>

theorem no_invalid_input_error:
  "(length sample < 2 \<longrightarrow>
      calculate_confidence_interval_of_sample_mean ppf sample alpha = (NaN, NaN)) \<and>
   (run_trial normal ppf mu sigma N alpha g = Inl e \<longleftrightarrow> normal mu sigma N g = Inl e) \<and>
   (estimate_coverage normal ppf mu sigma N alpha num_trials g = Inl e \<longleftrightarrow>
      draw_samples normal mu sigma N num_trials g = Inl e) \<and>
   estimate_coverage normal ppf mu sigma N alpha 0 g = Inr (NaN, g)"
proof -
  have "estimate_coverage normal ppf mu sigma N alpha 0 g = Inr (NaN, g)"
    by (simp add: estimate_coverage_def np_mean_bool_def inf_signed_def)
  then show ?thesis
    using calculate_lt2[of sample ppf alpha]
      run_trial_Inl_iff[of normal ppf mu sigma N alpha g e]
      estimate_coverage_Inl_iff[of normal ppf mu sigma N alpha num_trials g e]
    by blast
qed

theorem no_invalid_input_error_witness:
  "length [1000 :: real] < 2 \<and>
   calculate_confidence_interval_of_sample_mean stub_ppf [1000] (1 - 95 / 100) = (NaN, NaN) \<and>
   (run_trial stub_normal stub_ppf 1000 (- 50) 1 (1 - 95 / 100) 0 = Inl ValueError) =
     (stub_normal 1000 (- 50) 1 0 = Inl ValueError) \<and>
   (estimate_coverage stub_normal stub_ppf 1000 (- 50) 1 (1 - 95 / 100) 3 0 = Inl ValueError) =
     (draw_samples stub_normal 1000 (- 50) 1 3 0 = Inl ValueError) \<and>
   estimate_coverage stub_normal stub_ppf 1000 (- 50) 1 (1 - 95 / 100) 0 0 = Inr (NaN, 0)"
  using no_invalid_input_error[of "[1000]" stub_ppf "1 - 95 / 100" stub_normal 1000 "- 50" 1 0
      ValueError 3]
  by simp

text \<open>
  The claim as stated fails: with a sample size of 1, with a confidence level of 3/2 and
  with zero trials the cell returns \<^verbatim>\<open>nan\<close> values where the claim has an invalid-input
  error.
\<close>

theorem invalid_input_is_not_refused:
  "run_trial stub_normal stub_ppf 1000 50 1 (1 - 95 / 100) 0 = Inr ((NaN, NaN), 1) \<and>
   run_trial stub_normal stub_ppf 1000 50 2 (1 - 3 / 2) 0 = Inr ((NaN, NaN), 1) \<and>
   estimate_coverage stub_normal stub_ppf 1000 50 50 (1 - 95 / 100) 0 0 = Inr (NaN, 0)"
proof -
  have a: "run_trial stub_normal stub_ppf 1000 50 1 (1 - 95 / 100) 0 = Inr ((NaN, NaN), 1)"
    by (simp add: run_trial_def stub_normal_def calculate_lt2)
  have "calculate_confidence_interval_of_sample_mean stub_ppf [1000, 1000] (1 - 3 / 2)
      = (NaN, NaN)"
    by (simp add: calculate_confidence_interval_of_sample_mean_def Let_def stub_ppf_def
        np_std_ge2 np_mean_def fsub_def)
  then have b: "run_trial stub_normal stub_ppf 1000 50 2 (1 - 3 / 2) 0 = Inr ((NaN, NaN), 1)"
    by (simp add: run_trial_def stub_normal_def numeral_2_eq_2)
  have c: "estimate_coverage stub_normal stub_ppf 1000 50 50 (1 - 95 / 100) 0 0 = Inr (NaN, 0)"
    by (simp add: estimate_coverage_def np_mean_bool_def inf_signed_def)
  from a b c show ?thesis by blast
qed

text \<open>
  C3, as amended. For every sample and every significance level in \<open>[0,1]\<close>, the lower
  bound is below or equal to the upper bound unless a bound is \<^verbatim>\<open>nan\<close>; no bound is
  \<^verbatim>\<open>nan\<close>, and the bounds are in order, when the computed mean and standard deviation
  are finite, the computed square root of the sample size is finite and not zero, and
  the standard deviation is not zero or the quantile is not \<^verbatim>\<open>inf\<close>.
\<close>

theorem interval_ordered_unless_nan:
  assumes "rnd_contract rnd" and "norm_ppf_contract ppf" and "0 \<le> alpha" and "alpha \<le> 1"
  shows "(fst (calculate_confidence_interval_of_sample_mean_f64 rnd add_reduce ppf sample alpha) \<noteq> NaN \<and>
          snd (calculate_confidence_interval_of_sample_mean_f64 rnd add_reduce ppf sample alpha) \<noteq> NaN \<longrightarrow>
          fle (fst (calculate_confidence_interval_of_sample_mean_f64 rnd add_reduce ppf sample alpha))
              (snd (calculate_confidence_interval_of_sample_mean_f64 rnd add_reduce ppf sample alpha))) \<and>
         (\<forall>m s r.
            np_mean_f64 rnd add_reduce sample = Fin m \<and>
            np_std_f64 rnd add_reduce sample 1 = Fin s \<and>
            fsqrt_r rnd (rnd (real (length sample))) = Fin r \<and> r \<noteq> 0 \<and>
            (s \<noteq> 0 \<or>
             norm_ppf_at ppf (fsub_r rnd (Fin 1) (fdiv_r rnd (Fin alpha) (Fin 2))) \<noteq> PInf) \<longrightarrow>
            fle (fst (calculate_confidence_interval_of_sample_mean_f64 rnd add_reduce ppf sample alpha))
                (snd (calculate_confidence_interval_of_sample_mean_f64 rnd add_reduce ppf sample alpha)))"
proof -
  let ?c = "calculate_confidence_interval_of_sample_mean_f64 rnd add_reduce ppf sample alpha"
  have a: "fle (fst ?c) (snd ?c)" if "fst ?c \<noteq> NaN" and "snd ?c \<noteq> NaN"
    using interval_ordered_f64[OF assms(1,2,4) that] .
  have b: "fle (fst ?c) (snd ?c)"
    if "np_mean_f64 rnd add_reduce sample = Fin m"
      and "np_std_f64 rnd add_reduce sample 1 = Fin s"
      and "fsqrt_r rnd (rnd (real (length sample))) = Fin r" and "r \<noteq> 0"
      and "s \<noteq> 0 \<or>
             norm_ppf_at ppf (fsub_r rnd (Fin 1) (fdiv_r rnd (Fin alpha) (Fin 2))) \<noteq> PInf"
    for m s r
    using interval_not_nan_f64[OF assms that] a by blast
  from a b show ?thesis by blast
qed

theorem interval_ordered_unless_nan_witness:
  "rnd_contract round64 \<and> norm_ppf_contract stub_ppf \<and> (0::real) \<le> 1 / 4 \<and>
   (1 / 4 :: real) \<le> 1 \<and>
   np_mean_f64 round64 (seq_sum round64) [3, 1, 1, 1] = Fin (3 / 2) \<and>
   np_std_f64 round64 (seq_sum round64) [3, 1, 1, 1] 1 = Fin 1 \<and>
   fsqrt_r round64 (round64 (real (length [3, 1, 1, 1 :: real]))) = Fin 2 \<and>
   calculate_confidence_interval_of_sample_mean_f64 round64 (seq_sum round64) stub_ppf
     [3, 1, 1, 1] (1 / 4) = (Fin (21 / 16), Fin (27 / 16)) \<and>
   fle (fst (calculate_confidence_interval_of_sample_mean_f64 round64 (seq_sum round64) stub_ppf
          [3, 1, 1, 1] (1 / 4)))
       (snd (calculate_confidence_interval_of_sample_mean_f64 round64 (seq_sum round64) stub_ppf
          [3, 1, 1, 1] (1 / 4)))"
proof -
  have sq: "fsqrt_r round64 (round64 (real (length [3, 1, 1, 1 :: real]))) = Fin 2"
    by (simp add: round64_exact fsqrt_r_Fin)
  have r: "(0::real) \<le> 1 / 4" "(1 / 4 :: real) \<le> 1" by simp_all
  note t = interval_ordered_unless_nan[OF round64_contract stub_ppf_contract r,
      of "seq_sum round64" "[3, 1, 1, 1]"]
  have "fle (fst (calculate_confidence_interval_of_sample_mean_f64 round64 (seq_sum round64)
          stub_ppf [3, 1, 1, 1] (1 / 4)))
       (snd (calculate_confidence_interval_of_sample_mean_f64 round64 (seq_sum round64) stub_ppf
          [3, 1, 1, 1] (1 / 4)))"
    using t unfolding interval_3_1_1_1 by simp
  then show ?thesis
    using round64_contract stub_ppf_contract r mean_3_1_1_1 std_3_1_1_1 sq interval_3_1_1_1
    by blast
qed

text \<open>
  The claim as stated fails. At the significance level \<open>2\<^sup>-\<^sup>5\<^sup>3\<close>, which belongs to a
  confidence level in \<open>(0,1)\<close>, the probability \<^verbatim>\<open>1 - alpha/2\<close> is \<^verbatim>\<open>1.0\<close> in \<^verbatim>\<open>float64\<close>,
  the quantile is \<^verbatim>\<open>inf\<close>, and for the sample 5, 5 the margin is \<^verbatim>\<open>inf * 0.0\<close>: the
  estimator returns \<^verbatim>\<open>(nan, nan)\<close>, and \<^verbatim>\<open>lower <= upper\<close> is false.
\<close>

theorem interval_not_ordered_at_nan:
  "(0::real) < 1 / 2 ^ 53 \<and> (1 / 2 ^ 53 :: real) < 1 \<and> 2 \<le> length [5, 5 :: real] \<and>
   calculate_confidence_interval_of_sample_mean_f64 round64 (seq_sum round64) stub_ppf
     [5, 5] (1 / 2 ^ 53) = (NaN, NaN) \<and>
   \<not> fle (fst (calculate_confidence_interval_of_sample_mean_f64 round64 (seq_sum round64)
            stub_ppf [5, 5] (1 / 2 ^ 53)))
          (snd (calculate_confidence_interval_of_sample_mean_f64 round64 (seq_sum round64)
            stub_ppf [5, 5] (1 / 2 ^ 53)))"
  unfolding interval_nan_5_5 by simp



text \<open>
  C5, as amended. For the sample 998, 1002, 997, 1005, 999 and the confidence level 0.95,
  with a critical value within 0.00001 of 1.95996, the estimator computes the mean 1000.2
  and the Bessel-corrected standard deviation \<open>sqrt 10.7\<close>, about 3.271, and returns an
  interval with margin about 2.867, about \<open>[997.333, 1003.067]\<close>, each within
  0.001.
\<close>

theorem concrete_scenario:
  assumes "ppf (1 - (1 - 95 / 100) / 2) = Fin z"
    and "\<bar>z - 195996 / 100000\<bar> \<le> 1 / 100000"
  shows "np_mean [998, 1002, 997, 1005, 999] = Fin (10002 / 10) \<and>
         np_std [998, 1002, 997, 1005, 999] 1 = Fin (sqrt (107 / 10)) \<and>
         \<bar>sqrt (107 / 10) - 3271 / 1000\<bar> < 1 / 1000 \<and>
         (\<exists>lb ub.
            calculate_confidence_interval_of_sample_mean ppf [998, 1002, 997, 1005, 999]
              (1 - 95 / 100) = (Fin lb, Fin ub) \<and>
            \<bar>(ub - lb) / 2 - 2867 / 1000\<bar> < 1 / 1000 \<and>
            \<bar>lb - 997333 / 1000\<bar> < 1 / 1000 \<and>
            \<bar>ub - 1003067 / 1000\<bar> < 1 / 1000)"
proof -
  have m: "np_mean [998, 1002, 997, 1005, 999] = Fin (10002 / 10)"
    using np_mean_nonempty[of "[998, 1002, 997, 1005, 999]"] by (simp add: scenario_mean)
  have s: "\<bar>sqrt (107 / 10) - 3271 / 1000\<bar> < 1 / 1000"
    using sqrt_107_10_bounds by linarith
  have p: "ppf (39 / 40) = Fin z" using assms(1) by simp
  have i: "calculate_confidence_interval_of_sample_mean ppf [998, 1002, 997, 1005, 999]
      (1 - 95 / 100) = (Fin (5001 / 5 - z * sqrt (107 / 50)), Fin (5001 / 5 + z * sqrt (107 / 50)))"
    using scenario_interval[of ppf z, OF p] by simp
  note b = scenario_margin_arith[OF scenario_margin_bounds[OF assms(2)]]
  have "\<bar>((5001 / 5 + z * sqrt (107 / 50)) - (5001 / 5 - z * sqrt (107 / 50))) / 2 - 2867 / 1000\<bar>
      < 1 / 1000"
    by (rule b(1))
  moreover have "\<bar>(5001 / 5 - z * sqrt (107 / 50)) - 997333 / 1000\<bar> < 1 / 1000"
    by (rule b(2))
  moreover have "\<bar>(5001 / 5 + z * sqrt (107 / 50)) - 1003067 / 1000\<bar> < 1 / 1000"
    by (rule b(3))
  ultimately show ?thesis using m scenario_np_std s i by blast
qed

theorem concrete_scenario_witness:
  "(\<lambda>p. Fin (195996 / 100000)) (1 - (1 - 95 / 100) / 2 :: real) = Fin (195996 / 100000) \<and>
   \<bar>195996 / 100000 - 195996 / 100000 :: real\<bar> \<le> 1 / 100000 \<and>
   np_mean [998, 1002, 997, 1005, 999] = Fin (10002 / 10) \<and>
   np_std [998, 1002, 997, 1005, 999] 1 = Fin (sqrt (107 / 10)) \<and>
   \<bar>sqrt (107 / 10) - 3271 / 1000\<bar> < 1 / 1000 \<and>
   (\<exists>lb ub.
      calculate_confidence_interval_of_sample_mean (\<lambda>p. Fin (195996 / 100000))
        [998, 1002, 997, 1005, 999] (1 - 95 / 100) = (Fin lb, Fin ub) \<and>
      \<bar>(ub - lb) / 2 - 2867 / 1000\<bar> < 1 / 1000 \<and>
      \<bar>lb - 997333 / 1000\<bar> < 1 / 1000 \<and>
      \<bar>ub - 1003067 / 1000\<bar> < 1 / 1000)"
  using concrete_scenario[of "\<lambda>p. Fin (195996 / 100000)" "195996 / 100000"]
  by simp

text \<open>
  The claim as stated fails: the standard deviation is not within 0.05 of 3.194, and
  neither bound nor the margin of the interval is within 0.05 of the claimed 997.40,
  1002.997 and 2.797.
\<close>

theorem concrete_scenario_spec_values:
  "\<not> (\<exists>s. np_std [998, 1002, 997, 1005, 999] 1 = Fin s \<and> \<bar>s - 3194 / 1000\<bar> \<le> 5 / 100) \<and>
   \<not> (\<exists>ppf z lb ub.
         ppf (1 - (1 - 95 / 100) / 2) = Fin z \<and> \<bar>z - 195996 / 100000\<bar> \<le> 1 / 100000 \<and>
         calculate_confidence_interval_of_sample_mean ppf [998, 1002, 997, 1005, 999]
           (1 - 95 / 100) = (Fin lb, Fin ub) \<and>
         (\<bar>lb - 99740 / 100\<bar> \<le> 5 / 100 \<or> \<bar>ub - 1002997 / 1000\<bar> \<le> 5 / 100 \<or>
          \<bar>(ub - lb) / 2 - 2797 / 1000\<bar> \<le> 5 / 100))"
proof -
  have "\<not> \<bar>sqrt (107 / 10) - 3194 / 1000\<bar> \<le> 5 / 100"
    using sqrt_107_10_bounds(1) by linarith
  then have a: "\<not> (\<exists>s. np_std [998, 1002, 997, 1005, 999] 1 = Fin s \<and> \<bar>s - 3194 / 1000\<bar> \<le> 5 / 100)"
    unfolding scenario_np_std by blast
  have b: False
    if p: "ppf (1 - (1 - 95 / 100) / 2) = Fin z" and z: "\<bar>z - 195996 / 100000\<bar> \<le> 1 / 100000"
      and i: "calculate_confidence_interval_of_sample_mean ppf [998, 1002, 997, 1005, 999]
           (1 - 95 / 100) = (Fin lb, Fin ub)"
      and c: "\<bar>lb - 99740 / 100\<bar> \<le> 5 / 100 \<or> \<bar>ub - 1002997 / 1000\<bar> \<le> 5 / 100 \<or>
          \<bar>(ub - lb) / 2 - 2797 / 1000\<bar> \<le> 5 / 100"
    for ppf z lb ub
  proof -
    have p': "ppf (39 / 40) = Fin z" using p by simp
    have "lb = 5001 / 5 - z * sqrt (107 / 50)" and "ub = 5001 / 5 + z * sqrt (107 / 50)"
      using scenario_interval[of ppf z, OF p'] i by simp_all
    then show False
      using scenario_margin_arith(4,5,6)[OF scenario_margin_bounds[OF z]] c by blast
  qed
  from a b show ?thesis by blast
qed









end
